theory Spec2Isabelle
  imports Complex_Main
begin

section \<open>A model of the numpy arrays the helpers work on\<close>

text \<open>
  The helper routines of the Knightian innovation model build dense numpy arrays. An
  array is modelled as numpy stores it: a shape and a flat buffer in row-major (C)
  order. Floating-point numbers are idealised as real numbers, so rounding and overflow
  are outside the model. Every operation that numpy can refuse with an exception returns
  a sum type, with the exception on the left.
\<close>

datatype error = IndexError | ValueError

record 'a ndarray =
  shape :: "nat list"
  data :: "'a list"

text \<open>Sequencing of steps that may raise: the first exception ends the computation.\<close>

definition and_then :: "error + 'a \<Rightarrow> ('a \<Rightarrow> error + 'b) \<Rightarrow> error + 'b" where
  "and_then m f = (case m of Inl e \<Rightarrow> Inl e | Inr x \<Rightarrow> f x)"

text \<open>
  A one-dimensional array (a grid or a marginal distribution) is a list; its \<open>size\<close>
  is the length of the list, and \<open>array\<close> views it as an \<open>ndarray\<close>.
\<close>

definition array :: "'a list \<Rightarrow> 'a ndarray" where
  "array xs = \<lparr>shape = [length xs], data = xs\<rparr>"

text \<open>An array is well formed when its buffer holds one entry per index.\<close>

definition well_formed :: "'a ndarray \<Rightarrow> bool" where
  "well_formed A = (length (data A) = prod_list (shape A))"

text \<open>
  A multi-index is in range when it has one component per axis, each below the length of
  the axis. Its position in the buffer is the row-major offset.
\<close>

fun valid :: "nat list \<Rightarrow> nat list \<Rightarrow> bool" where
  "valid [] [] = True"
| "valid (n # ns) (i # is) = (i < n \<and> valid ns is)"
| "valid _ _ = False"

fun offset :: "nat list \<Rightarrow> nat list \<Rightarrow> nat" where
  "offset (n # ns) (i # is) = i * prod_list ns + offset ns is"
| "offset _ _ = 0"

text \<open>
  \<open>A[i, j, ...]\<close> with one non-negative integer per axis: numpy raises IndexError out
  of range. \<open>entry\<close> is the read of the buffer behind it, for an index known to be in
  range.
\<close>

definition entry :: "'a ndarray \<Rightarrow> nat list \<Rightarrow> 'a" where
  "entry A idx = data A ! offset (shape A) idx"

definition item :: "'a ndarray \<Rightarrow> nat list \<Rightarrow> error + 'a" where
  "item A idx = (if valid (shape A) idx then Inr (entry A idx) else Inl IndexError)"

text \<open>All multi-indices of a shape, in the order of the buffer.\<close>

fun indices :: "nat list \<Rightarrow> nat list list" where
  "indices [] = [[]]"
| "indices (n # ns) = concat (map (\<lambda>i. map ((#) i) (indices ns)) [0..<n])"

text \<open>The array of a given shape whose entry at each index is computed from the index.\<close>

definition tabulate :: "nat list \<Rightarrow> (nat list \<Rightarrow> 'a) \<Rightarrow> 'a ndarray" where
  "tabulate s g = \<lparr>shape = s, data = map g (indices s)\<rparr>"

text \<open>
  \<open>np.zeros(s)\<close> and \<open>np.zeros_like(A)\<close>. \<open>np.empty(s)\<close> leaves the entries
  uninitialised; the model fills them with zeros, and the only use of \<open>np.empty\<close> in the
  helpers overwrites every entry before it is read.
\<close>

definition zeros :: "nat list \<Rightarrow> real ndarray" where
  "zeros s = \<lparr>shape = s, data = replicate (prod_list s) 0\<rparr>"

definition zeros_like :: "'a ndarray \<Rightarrow> real ndarray" where
  "zeros_like A = zeros (shape A)"

definition np_empty :: "nat list \<Rightarrow> real ndarray" where
  "np_empty s = \<lparr>shape = s, data = replicate (prod_list s) 0\<rparr>"

text \<open>
  An operation between an array and a scalar (\<open>(1 + r) * A\<close>, \<open>R - A\<close>,
  \<open>np.maximum(A, c)\<close>) and a function applied entry by entry keep the shape and map
  the buffer.
\<close>

definition amap :: "('a \<Rightarrow> 'b) \<Rightarrow> 'a ndarray \<Rightarrow> 'b ndarray" where
  "amap f A = \<lparr>shape = shape A, data = map f (data A)\<rparr>"

text \<open>
  Indexing with \<open>None\<close> and \<open>:\<close> only, as in \<open>A[:, None, None]\<close>: \<open>None\<close> inserts an
  axis of length 1, \<open>:\<close> keeps the next axis of the array, and axes left over are kept.
  The buffer is shared. More \<open>:\<close> than axes is an IndexError (too many indices).
\<close>

datatype ix = NewAxis | Colon

fun view_shape :: "ix list \<Rightarrow> nat list \<Rightarrow> error + nat list" where
  "view_shape [] ns = Inr ns"
| "view_shape (NewAxis # ks) ns = map_sum id ((#) 1) (view_shape ks ns)"
| "view_shape (Colon # ks) [] = Inl IndexError"
| "view_shape (Colon # ks) (n # ns) = map_sum id ((#) n) (view_shape ks ns)"

definition view :: "ix list \<Rightarrow> 'a ndarray \<Rightarrow> error + 'a ndarray" where
  "view ks A =
     (case view_shape ks (shape A) of
        Inl e \<Rightarrow> Inl e
      | Inr s \<Rightarrow> Inr \<lparr>shape = s, data = data A\<rparr>)"

text \<open>
  Broadcasting. The shorter shape is padded with leading ones; two axis lengths are
  compatible when they are equal or one of them is 1, and the result takes the other
  one; anything else is a ValueError. An operand is read at the index of the result with
  0 on each of its axes of length 1.
\<close>

definition pad :: "nat \<Rightarrow> nat list \<Rightarrow> nat list" where
  "pad n s = replicate (n - length s) 1 @ s"

fun broadcast_shapes :: "nat list \<Rightarrow> nat list \<Rightarrow> error + nat list" where
  "broadcast_shapes [] [] = Inr []"
| "broadcast_shapes (a # as) (b # bs) =
     (if a = b \<or> b = 1 then map_sum id ((#) a) (broadcast_shapes as bs)
      else if a = 1 then map_sum id ((#) b) (broadcast_shapes as bs)
      else Inl ValueError)"
| "broadcast_shapes _ _ = Inl ValueError"

fun bc_index :: "nat list \<Rightarrow> nat list \<Rightarrow> nat list" where
  "bc_index (n # ns) (i # is) = (if n = 1 then 0 else i) # bc_index ns is"
| "bc_index _ _ = []"

definition broadcast2 ::
  "('a \<Rightarrow> 'b \<Rightarrow> 'c) \<Rightarrow> 'a ndarray \<Rightarrow> 'b ndarray \<Rightarrow> error + 'c ndarray" where
  "broadcast2 f A B =
     (let n = max (length (shape A)) (length (shape B));
          sa = pad n (shape A);
          sb = pad n (shape B)
      in case broadcast_shapes sa sb of
           Inl e \<Rightarrow> Inl e
         | Inr s \<Rightarrow>
             Inr (tabulate s (\<lambda>idx. f (data A ! offset sa (bc_index sa idx))
                                       (data B ! offset sb (bc_index sb idx)))))"

text \<open>
  Broadcasting one array to a given shape, as an assignment does with its right-hand
  side: only the source is stretched. \<open>A[:, :, :, :] = B\<close> overwrites every entry of
  \<open>A\<close> with \<open>B\<close> broadcast to the shape of \<open>A\<close>.
\<close>

fun broadcastable_to :: "nat list \<Rightarrow> nat list \<Rightarrow> bool" where
  "broadcastable_to [] [] = True"
| "broadcastable_to (a # as) (n # ns) = ((a = n \<or> a = 1) \<and> broadcastable_to as ns)"
| "broadcastable_to _ _ = False"

definition broadcast_to :: "'a ndarray \<Rightarrow> nat list \<Rightarrow> error + 'a ndarray" where
  "broadcast_to A s =
     (let sa = pad (length s) (shape A)
      in if broadcastable_to sa s
         then Inr (tabulate s (\<lambda>idx. data A ! offset sa (bc_index sa idx)))
         else Inl ValueError)"

definition assign_all :: "'a ndarray \<Rightarrow> 'a ndarray \<Rightarrow> error + 'a ndarray" where
  "assign_all A B = broadcast_to B (shape A)"

text \<open>
  \<open>A[0, :, :, :] += B\<close>: the index needs four axes and a first axis that is not empty
  (IndexError otherwise); \<open>B\<close> is broadcast to the shape of the block \<open>A[0]\<close>, which is
  the first \<open>prod_list ns\<close> entries of the buffer, and added to it in place.
\<close>

definition iadd_at0 :: "real ndarray \<Rightarrow> real ndarray \<Rightarrow> error + real ndarray" where
  "iadd_at0 A B =
     (case shape A of
        [] \<Rightarrow> Inl IndexError
      | n # ns \<Rightarrow>
          if length ns < 3 then Inl IndexError
          else if n = 0 then Inl IndexError
          else and_then (broadcast_to B ns) (\<lambda>B'.
                 Inr \<lparr>shape = n # ns,
                      data = map2 (+) (take (prod_list ns) (data A)) (data B')
                             @ drop (prod_list ns) (data A)\<rparr>))"

text \<open>\<open>np.sum(A)\<close>, and \<open>np.sum(P[:, f, :, :])\<close> for a four-dimensional \<open>P\<close>.\<close>

definition np_sum :: "real ndarray \<Rightarrow> real" where
  "np_sum A = sum_list (data A)"


section \<open>The helper routines\<close>

text \<open>
  \<open>initialize_values_and_policies(states_vals, b_vals)\<close>: the two value functions,
  their stores and the two arrays of action values, all from \<open>np.zeros\<close>.
\<close>

definition initialize_values_and_policies ::
  "real list \<times> real list \<times> real list \<times> real list \<Rightarrow> real list \<Rightarrow>
   real ndarray \<times> real ndarray \<times> real ndarray \<times> real ndarray \<times> real ndarray \<times> real ndarray"
where
  "initialize_values_and_policies states_vals b_vals =
     (case states_vals of (w_vals, \<zeta>_vals, \<iota>_vals, k_tilde_vals) \<Rightarrow>
        let V2_star = zeros [length \<zeta>_vals, length k_tilde_vals, length \<iota>_vals];
            V2_store = zeros_like V2_star;
            V1_star = zeros [length \<iota>_vals, length \<zeta>_vals, length w_vals];
            V1_store = zeros_like V1_star;
            b_av = zeros [length \<zeta>_vals, length k_tilde_vals, length b_vals, length \<iota>_vals];
            k_tilde_av = zeros [length \<iota>_vals, length \<zeta>_vals, length w_vals,
                                length k_tilde_vals]
        in (V1_star, V1_store, V2_star, V2_store, b_av, k_tilde_av))"

text \<open>
  \<open>create_uc_grid(u, states_vals, wage, min_c)\<close>. The utility function \<open>u\<close> is called
  once, on the whole array of clipped consumption values.
\<close>

definition create_uc_grid ::
  "(real ndarray \<Rightarrow> 'r) \<Rightarrow> real list \<times> real list \<times> real list \<times> real list \<Rightarrow> real \<Rightarrow> real \<Rightarrow>
   error + 'r" where
  "create_uc_grid u states_vals wage min_c =
     (case states_vals of (w_vals, \<zeta>_vals, \<iota>_vals, k_tilde_vals) \<Rightarrow>
        let uc = np_empty [length \<iota>_vals, length \<zeta>_vals, length w_vals, length k_tilde_vals]
        in
        and_then (view [NewAxis, NewAxis, Colon, NewAxis] (array w_vals)) (\<lambda>w4.
        and_then (view [NewAxis, NewAxis, NewAxis, Colon] (array k_tilde_vals)) (\<lambda>k4.
        and_then (broadcast2 (-) w4 k4) (\<lambda>rhs.
        and_then (assign_all uc rhs) (\<lambda>uc.
        and_then (view [Colon, NewAxis, NewAxis] (array \<zeta>_vals)) (\<lambda>\<zeta>3.
        and_then (iadd_at0 uc (amap (\<lambda>z. z * wage) \<zeta>3)) (\<lambda>uc.
        Inr (u (amap (\<lambda>c. max c min_c) uc)))))))))"

text \<open>\<open>create_next_w(r, \<delta>_vals, k_tilde_vals, b_vals, R, \<Gamma>_star)\<close>.\<close>

definition create_next_w ::
  "real \<Rightarrow> real list \<Rightarrow> real list \<Rightarrow> real list \<Rightarrow> real \<Rightarrow> real \<Rightarrow>
   error + (real ndarray \<times> real ndarray)" where
  "create_next_w r \<delta>_vals k_tilde_vals b_vals R \<Gamma>_star =
     and_then (view [Colon, NewAxis, NewAxis] (array \<delta>_vals)) (\<lambda>\<delta>3.
     and_then (view [NewAxis, Colon, NewAxis] (array k_tilde_vals)) (\<lambda>k3.
     and_then (broadcast2 (*) (amap (\<lambda>x. (1 + r) * x) \<delta>3) k3) (\<lambda>t1.
     and_then (view [NewAxis, NewAxis, Colon] (array b_vals)) (\<lambda>b3.
     and_then (broadcast2 (*) (amap (\<lambda>x. R - x) (amap (\<lambda>x. (1 + r) * x) \<delta>3)) b3) (\<lambda>t2.
     and_then (broadcast2 (+) t1 t2) (\<lambda>next_w.
     Inr (next_w, amap (\<lambda>x. x + \<Gamma>_star) next_w)))))))"

text \<open>\<open>create_P(P_\<delta>, P_\<zeta>, P_\<iota>)\<close>; the product associates to the left.\<close>

definition create_P :: "real list \<Rightarrow> real ndarray \<Rightarrow> real list \<Rightarrow> error + real ndarray" where
  "create_P P_\<delta> P_\<zeta> P_\<iota> =
     and_then (view [Colon, NewAxis, NewAxis, NewAxis] (array P_\<delta>)) (\<lambda>\<delta>4.
     and_then (view [NewAxis, Colon, Colon, NewAxis] P_\<zeta>) (\<lambda>\<zeta>4.
     and_then (broadcast2 (*) \<delta>4 \<zeta>4) (\<lambda>\<delta>\<zeta>.
     and_then (view [NewAxis, NewAxis, NewAxis, Colon] (array P_\<iota>)) (\<lambda>\<iota>4.
     broadcast2 (*) \<delta>\<zeta> \<iota>4))))"

section \<open>Notions the properties are stated with\<close>

text \<open>An array of a given shape with one entry per index, every entry zero.\<close>

definition is_zeros :: "nat list \<Rightarrow> real ndarray \<Rightarrow> bool" where
  "is_zeros s A = (shape A = s \<and> well_formed A \<and> list_all (\<lambda>x. x = 0) (data A))"

text \<open>
  A probability distribution over a grid, and a matrix of transition probabilities: no
  negative entry, and the entries (of each row, for the matrix) sum to one.
\<close>

definition nonneg :: "real list \<Rightarrow> bool" where
  "nonneg xs = list_all (\<lambda>x. 0 \<le> x) xs"

definition is_distribution :: "real list \<Rightarrow> bool" where
  "is_distribution xs = (nonneg xs \<and> sum_list xs = 1)"

definition is_transition_matrix :: "real ndarray \<Rightarrow> bool" where
  "is_transition_matrix A =
     (case shape A of
        [n, m] \<Rightarrow>
          well_formed A \<and> nonneg (data A) \<and>
          list_all (\<lambda>f. (\<Sum>t\<leftarrow>[0..<m]. entry A [f, t]) = 1) [0..<n]
      | _ \<Rightarrow> False)"

section \<open>The utility grid on doubles\<close>

text \<open>
  Whether an entry is a finite number, an infinity or not a number cannot be said of
  real numbers. Where a property is about that, the grids hold doubles: a finite double
  is represented by its value, and an operation on finite operands whose exact result
  reaches the magnitude at which IEEE round-to-nearest overflows, \<open>2^1024 - 2^970\<close>,
  gives an infinity. Rounding of a result that stays in range and the sign of zero are
  not modelled. Infinities and NaN follow the IEEE rules: NaN propagates, and the sum of
  two infinities of opposite sign or the product of zero and an infinity is NaN.
\<close>

datatype double = Finite real | PosInf | NegInf | NaN

fun is_finite :: "double \<Rightarrow> bool" where
  "is_finite (Finite x) = True"
| "is_finite _ = False"

definition overflow_threshold :: real where
  "overflow_threshold = 2 ^ 1024 - 2 ^ 970"

definition double_of_exact :: "real \<Rightarrow> double" where
  "double_of_exact r =
     (if overflow_threshold \<le> r then PosInf
      else if r \<le> - overflow_threshold then NegInf
      else Finite r)"

fun double_neg :: "double \<Rightarrow> double" where
  "double_neg (Finite x) = Finite (- x)"
| "double_neg PosInf = NegInf"
| "double_neg NegInf = PosInf"
| "double_neg NaN = NaN"

fun double_add :: "double \<Rightarrow> double \<Rightarrow> double" where
  "double_add NaN _ = NaN"
| "double_add _ NaN = NaN"
| "double_add (Finite x) (Finite y) = double_of_exact (x + y)"
| "double_add PosInf NegInf = NaN"
| "double_add NegInf PosInf = NaN"
| "double_add PosInf _ = PosInf"
| "double_add _ PosInf = PosInf"
| "double_add NegInf _ = NegInf"
| "double_add _ NegInf = NegInf"

definition double_sub :: "double \<Rightarrow> double \<Rightarrow> double" where
  "double_sub a b = double_add a (double_neg b)"











section \<open>Construction of the households\<close>

text \<open>
  Modelled from the spec: the constructor \<open>KIMHouseholds\<close> of \<open>knightian_model.py\<close>,
  which the tests call, is not among the sources. The spec has it accept the grids, the
  distributions and the scalar parameters, and reject at construction any distribution
  that is negative, does not sum to 1 or does not have the shape of its grid, and any of
  \<open>\<alpha>\<close>, \<open>\<beta>\<close>, \<open>\<pi>\<close> outside \<open>[0, 1]\<close>. The tests expect a \<open>ValueError\<close> for a
  rejected parameter and for a rejected shape alike, so both are that exception here;
  the order of the checks is not fixed by the spec and does not show in the result. A
  rejected construction returns no object.
\<close>

record household =
  hh_\<alpha> :: real
  hh_\<beta> :: real
  hh_\<pi> :: real
  hh_\<delta>_vals :: "real list"
  hh_P_\<delta> :: "real list"
  hh_\<zeta>_vals :: "real list"
  hh_P_\<zeta> :: "real ndarray"
  hh_\<iota>_vals :: "real list"
  hh_P_\<iota> :: "real list"
  hh_w_vals :: "real list"
  hh_k_tilde_vals :: "real list"
  hh_b_vals :: "real list"
  hh_r :: real
  hh_R :: real
  hh_wage :: real
  hh_\<Gamma>_star :: real
  hh_min_c :: real

definition in_unit_interval :: "real \<Rightarrow> bool" where
  "in_unit_interval x = (0 \<le> x \<and> x \<le> 1)"

definition shapes_match :: "household \<Rightarrow> bool" where
  "shapes_match h =
     (length (hh_P_\<delta> h) = length (hh_\<delta>_vals h) \<and>
      shape (hh_P_\<zeta> h) = [length (hh_\<zeta>_vals h), length (hh_\<zeta>_vals h)] \<and>
      length (hh_P_\<iota> h) = length (hh_\<iota>_vals h))"

definition parameters_valid :: "household \<Rightarrow> bool" where
  "parameters_valid h =
     (in_unit_interval (hh_\<alpha> h) \<and> in_unit_interval (hh_\<beta> h) \<and> in_unit_interval (hh_\<pi> h) \<and>
      is_distribution (hh_P_\<delta> h) \<and> is_transition_matrix (hh_P_\<zeta> h) \<and>
      is_distribution (hh_P_\<iota> h))"

definition KIMHouseholds :: "household \<Rightarrow> error + household" where
  "KIMHouseholds h =
     (if \<not> shapes_match h then Inl ValueError
      else if \<not> parameters_valid h then Inl ValueError
      else Inr h)"

text \<open>The three ways the claims name in which a distribution can be wrong.\<close>

definition bad_distribution :: "real list \<Rightarrow> bool" where
  "bad_distribution xs =
     (list_ex (\<lambda>x. x < 0) xs \<or> list_ex (\<lambda>x. 1 < x) xs \<or> sum_list xs \<noteq> 1)"

definition bad_transition_matrix :: "real ndarray \<Rightarrow> bool" where
  "bad_transition_matrix A =
     (list_ex (\<lambda>x. x < 0) (data A) \<or> list_ex (\<lambda>x. 1 < x) (data A) \<or>
      (case shape A of
         [n, m] \<Rightarrow> list_ex (\<lambda>f. (\<Sum>t\<leftarrow>[0..<m]. entry A [f, t]) \<noteq> 1) [0..<n]
       | _ \<Rightarrow> False))"

text \<open>A household whose parameters pass every check, to vary one parameter at a time.\<close>

definition example_household :: household where
  "example_household =
     \<lparr>hh_\<alpha> = 1/2, hh_\<beta> = 9/10, hh_\<pi> = 1/4,
      hh_\<delta>_vals = [19/20, 1], hh_P_\<delta> = [1/2, 1/2],
      hh_\<zeta>_vals = [1, 3/2], hh_P_\<zeta> = \<lparr>shape = [2, 2], data = [1/2, 1/2, 1/2, 1/2]\<rparr>,
      hh_\<iota>_vals = [0, 1], hh_P_\<iota> = [1/2, 1/2],
      hh_w_vals = [1, 2, 3], hh_k_tilde_vals = [0, 1], hh_b_vals = [0, 1],
      hh_r = 1/10, hh_R = 21/20, hh_wage = 1, hh_\<Gamma>_star = 1/5, hh_min_c = 1/1000\<rparr>"

section \<open>Facts about indexing\<close>

lemma length_indices: "length (indices ns) = prod_list ns"
proof (induction ns)
  case Nil
  show ?case by simp
next
  case (Cons n ns)
  have "length (indices (n # ns)) = sum_list (map (\<lambda>i. prod_list ns) [0..<n])"
    by (simp add: length_concat Cons.IH comp_def)
  also have "\<dots> = n * prod_list ns"
    by (simp add: sum_list_triv)
  finally show ?case by simp
qed

lemma offset_less: "valid ns idx \<Longrightarrow> offset ns idx < prod_list ns"
proof (induction ns idx rule: valid.induct)
  case 1
  show ?case by simp
next
  case (2 n ns i "is")
  then have i: "i < n" and r: "offset ns is < prod_list ns" by simp_all
  have "i * prod_list ns + offset ns is < i * prod_list ns + prod_list ns"
    using r by simp
  also have "\<dots> = Suc i * prod_list ns" by simp
  also have "\<dots> \<le> n * prod_list ns"
    using i by (intro mult_le_mono1) simp
  finally show ?case by simp
qed simp_all

lemma concat_map_nth:
  "\<lbrakk>\<forall>x \<in> set xs. length (g x) = m; i < length xs; j < m\<rbrakk>
   \<Longrightarrow> concat (map g xs) ! (i * m + j) = g (xs ! i) ! j"
proof (induction xs arbitrary: i)
  case Nil
  then show ?case by simp
next
  case (Cons x xs)
  show ?case
  proof (cases i)
    case 0
    with Cons.prems show ?thesis by (simp add: nth_append)
  next
    case (Suc k)
    with Cons.prems have "concat (map g xs) ! (k * m + j) = g (xs ! k) ! j"
      by (intro Cons.IH) simp_all
    with Suc Cons.prems show ?thesis by (simp add: nth_append)
  qed
qed

lemma indices_nth: "valid ns idx \<Longrightarrow> indices ns ! offset ns idx = idx"
proof (induction ns idx rule: valid.induct)
  case 1
  show ?case by simp
next
  case (2 n ns i "is")
  then have i: "i < n" and v: "valid ns is" and ih: "indices ns ! offset ns is = is"
    by simp_all
  have "concat (map (\<lambda>i. map ((#) i) (indices ns)) [0..<n]) ! (i * prod_list ns + offset ns is)
        = map ((#) i) (indices ns) ! offset ns is"
    using concat_map_nth [of "[0..<n]" "\<lambda>i. map ((#) i) (indices ns)" "prod_list ns" i
        "offset ns is"] i offset_less [OF v]
    by (simp add: length_indices)
  also have "\<dots> = i # is"
    using offset_less [OF v] ih by (simp add: length_indices)
  finally show ?case by simp
qed simp_all

lemma valid_indices: "idx \<in> set (indices ns) \<Longrightarrow> valid ns idx"
  by (induction ns arbitrary: idx) auto

lemmas [simp del] = indices.simps

lemma shape_tabulate [simp]: "shape (tabulate s g) = s"
  by (simp add: tabulate_def)

lemma well_formed_tabulate [simp]: "well_formed (tabulate s g)"
  by (simp add: well_formed_def tabulate_def length_indices)

lemma entry_tabulate: "valid s idx \<Longrightarrow> entry (tabulate s g) idx = g idx"
  using offset_less [of s idx]
  by (simp add: entry_def tabulate_def length_indices indices_nth)

lemma item_entry: "valid (shape A) idx \<Longrightarrow> item A idx = Inr (entry A idx)"
  by (simp add: item_def)

lemma item_tabulate: "valid s idx \<Longrightarrow> item (tabulate s g) idx = Inr (g idx)"
  by (simp add: item_def entry_tabulate)

lemma shape_amap [simp]: "shape (amap f A) = shape A"
  by (simp add: amap_def)

lemma well_formed_amap [simp]: "well_formed (amap f A) = well_formed A"
  by (simp add: amap_def well_formed_def)

lemma entry_amap:
  "\<lbrakk>well_formed A; valid (shape A) idx\<rbrakk> \<Longrightarrow> entry (amap f A) idx = f (entry A idx)"
  using offset_less [of "shape A" idx] by (simp add: entry_def amap_def well_formed_def)

lemma item_amap: "well_formed A \<Longrightarrow> item (amap f A) idx = map_sum id f (item A idx)"
  by (simp add: item_def entry_amap)

section \<open>Facts about views and broadcasting\<close>

lemma broadcast_shapes_one_right [simp]:
  "broadcast_shapes (a # as) (Suc 0 # bs) = map_sum id ((#) a) (broadcast_shapes as bs)"
  by simp

lemma broadcast_shapes_one_left [simp]:
  "broadcast_shapes (Suc 0 # as) (b # bs) = map_sum id ((#) b) (broadcast_shapes as bs)"
  by auto

lemma broadcast_shapes_same [simp]:
  "broadcast_shapes (a # as) (a # bs) = map_sum id ((#) a) (broadcast_shapes as bs)"
  by simp

lemma bc_index_in_range [simp]:
  "i < n \<Longrightarrow> bc_index (n # ns) (i # is) = i # bc_index ns is"
  by auto

lemma bc_index_one [simp]:
  "bc_index (Suc 0 # ns) (i # is) = 0 # bc_index ns is"
  by simp

lemmas [simp del] = broadcast_shapes.simps(2) bc_index.simps(1)

lemma broadcast2_same_ndim:
  "\<lbrakk>length (shape A) = length (shape B); broadcast_shapes (shape A) (shape B) = Inr s\<rbrakk>
   \<Longrightarrow> broadcast2 f A B =
       Inr (tabulate s (\<lambda>idx. f (entry A (bc_index (shape A) idx))
                                 (entry B (bc_index (shape B) idx))))"
  by (simp add: broadcast2_def pad_def entry_def Let_def)

lemma broadcast_to_same_ndim:
  "\<lbrakk>length (shape A) = length s; broadcastable_to (shape A) s\<rbrakk>
   \<Longrightarrow> broadcast_to A s = Inr (tabulate s (\<lambda>idx. entry A (bc_index (shape A) idx)))"
  by (simp add: broadcast_to_def pad_def entry_def Let_def)

lemma view_array3:
  "view [Colon, NewAxis, NewAxis] (array xs) = Inr \<lparr>shape = [length xs, 1, 1], data = xs\<rparr>"
  "view [NewAxis, Colon, NewAxis] (array xs) = Inr \<lparr>shape = [1, length xs, 1], data = xs\<rparr>"
  "view [NewAxis, NewAxis, Colon] (array xs) = Inr \<lparr>shape = [1, 1, length xs], data = xs\<rparr>"
  by (simp_all add: view_def array_def)

lemma view_array4:
  "view [Colon, NewAxis, NewAxis, NewAxis] (array xs)
     = Inr \<lparr>shape = [length xs, 1, 1, 1], data = xs\<rparr>"
  "view [NewAxis, NewAxis, Colon, NewAxis] (array xs)
     = Inr \<lparr>shape = [1, 1, length xs, 1], data = xs\<rparr>"
  "view [NewAxis, NewAxis, NewAxis, Colon] (array xs)
     = Inr \<lparr>shape = [1, 1, 1, length xs], data = xs\<rparr>"
  by (simp_all add: view_def array_def)

lemma view_matrix4:
  "shape A = [n, m] \<Longrightarrow>
   view [NewAxis, Colon, Colon, NewAxis] A = Inr \<lparr>shape = [1, n, m, 1], data = data A\<rparr>"
  by (simp add: view_def)

lemma well_formed_vec3 [simp]:
  "well_formed \<lparr>shape = [length xs, Suc 0, Suc 0], data = xs\<rparr>"
  "well_formed \<lparr>shape = [Suc 0, length xs, Suc 0], data = xs\<rparr>"
  "well_formed \<lparr>shape = [Suc 0, Suc 0, length xs], data = xs\<rparr>"
  by (simp_all add: well_formed_def)

lemma entry_vec3 [simp]:
  "entry \<lparr>shape = [length xs, Suc 0, Suc 0], data = xs\<rparr> [d, 0, 0] = xs ! d"
  "entry \<lparr>shape = [Suc 0, length xs, Suc 0], data = xs\<rparr> [0, d, 0] = xs ! d"
  "entry \<lparr>shape = [Suc 0, Suc 0, length xs], data = xs\<rparr> [0, 0, d] = xs ! d"
  by (simp_all add: entry_def)

lemma entry_vec4 [simp]:
  "entry \<lparr>shape = [length xs, Suc 0, Suc 0, Suc 0], data = xs\<rparr> [d, 0, 0, 0] = xs ! d"
  "entry \<lparr>shape = [Suc 0, Suc 0, length xs, Suc 0], data = xs\<rparr> [0, 0, d, 0] = xs ! d"
  "entry \<lparr>shape = [Suc 0, Suc 0, Suc 0, length xs], data = xs\<rparr> [0, 0, 0, d] = xs ! d"
  by (simp_all add: entry_def)

lemma entry_matrix4 [simp]:
  "shape A = [n, m] \<Longrightarrow>
   entry \<lparr>shape = [Suc 0, n, m, Suc 0], data = data A\<rparr> [0, f, t, 0] = entry A [f, t]"
  by (simp add: entry_def)

lemma iadd_at0_nth:
  assumes len: "length xs = n * m" and n: "0 < n" and len': "length ys = m"
    and i: "i < n" and k: "k < m"
  shows "(map2 (+) (take m xs) ys @ drop m xs) ! (i * m + k)
         = (if i = 0 then xs ! k + ys ! k else xs ! (i * m + k :: nat))"
proof -
  have m: "m \<le> length xs" using len n by (cases n) simp_all
  then have l: "length (map2 (+) (take m xs) ys) = m" using len' by simp
  show ?thesis
  proof (cases i)
    case 0
    then show ?thesis using l k m len' by (simp add: nth_append)
  next
    case (Suc j)
    have "i * m + k < i * m + m" using k by simp
    also have "\<dots> = Suc i * m" by simp
    also have "\<dots> \<le> n * m" using i by (intro mult_le_mono1) simp
    finally have "i * m + k < length xs" using len by simp
    then show ?thesis using Suc l m by (simp add: nth_append add.assoc)
  qed
qed

lemma iadd_at0_entry:
  assumes sh: "shape A = n # ns" and nd: "3 \<le> length ns" and n: "0 < n"
    and wfA: "well_formed A" and B: "broadcast_to B ns = Inr B'"
    and wfB: "well_formed B'" and shB: "shape B' = ns"
  shows "\<exists>C. iadd_at0 A B = Inr C \<and> shape C = n # ns \<and> well_formed C \<and>
           (\<forall>i rest. valid (n # ns) (i # rest) \<longrightarrow>
              entry C (i # rest) =
                (if i = 0 then entry A (i # rest) + entry B' rest else entry A (i # rest)))"
proof -
  let ?m = "prod_list ns"
  let ?C = "\<lparr>shape = n # ns,
            data = map2 (+) (take ?m (data A)) (data B') @ drop ?m (data A)\<rparr>"
  have lenA: "length (data A) = n * ?m" using wfA sh by (simp add: well_formed_def)
  have lenB: "length (data B') = ?m" using wfB shB by (simp add: well_formed_def)
  have eq: "iadd_at0 A B = Inr ?C"
    using sh nd n B by (simp add: iadd_at0_def and_then_def)
  have m: "?m \<le> length (data A)" using lenA n by (cases n) simp_all
  have wfC: "well_formed ?C"
    using lenA lenB m by (simp add: well_formed_def)
  have ent: "entry ?C (i # rest) =
      (if i = 0 then entry A (i # rest) + entry B' rest else entry A (i # rest))"
    if v: "valid (n # ns) (i # rest)" for i rest
  proof -
    from v have i: "i < n" and r: "valid ns rest" by simp_all
    from iadd_at0_nth [OF lenA n lenB i offset_less [OF r]]
    show ?thesis by (simp add: entry_def sh shB)
  qed
  show ?thesis using eq wfC ent by auto
qed

section \<open>The utility grid\<close>

lemma create_uc_grid_raw:
  assumes ne: "\<iota>_vals \<noteq> []"
  shows "\<exists>C. create_uc_grid u (w_vals, \<zeta>_vals, \<iota>_vals, k_tilde_vals) wage min_c
               = Inr (u (amap (\<lambda>c. max c min_c) C)) \<and>
     shape C = [length \<iota>_vals, length \<zeta>_vals, length w_vals, length k_tilde_vals] \<and>
     well_formed C \<and>
     (\<forall>i < length \<iota>_vals. \<forall>z < length \<zeta>_vals. \<forall>x < length w_vals. \<forall>k < length k_tilde_vals.
        entry C [i, z, x, k] =
          w_vals ! x - k_tilde_vals ! k + (if i = 0 then \<zeta>_vals ! z * wage else 0))"
proof -
  let ?s = "[length \<iota>_vals, length \<zeta>_vals, length w_vals, length k_tilde_vals]"
  let ?rhs = "tabulate [1, 1, length w_vals, length k_tilde_vals]
     (\<lambda>idx. entry \<lparr>shape = [1, 1, length w_vals, 1], data = w_vals\<rparr>
               (bc_index [1, 1, length w_vals, 1] idx) -
             entry \<lparr>shape = [1, 1, 1, length k_tilde_vals], data = k_tilde_vals\<rparr>
               (bc_index [1, 1, 1, length k_tilde_vals] idx))"
  let ?uc = "tabulate ?s
     (\<lambda>idx. entry ?rhs (bc_index [1, 1, length w_vals, length k_tilde_vals] idx))"
  let ?B = "amap (\<lambda>z. z * wage) \<lparr>shape = [length \<zeta>_vals, 1, 1], data = \<zeta>_vals\<rparr>"
  let ?B' = "tabulate [length \<zeta>_vals, length w_vals, length k_tilde_vals]
      (\<lambda>idx. entry ?B (bc_index [length \<zeta>_vals, 1, 1] idx))"
  have B: "broadcast_to ?B [length \<zeta>_vals, length w_vals, length k_tilde_vals] = Inr ?B'"
    by (simp add: broadcast_to_same_ndim)
  from ne have n: "0 < length \<iota>_vals" by simp
  from iadd_at0_entry [of ?uc "length \<iota>_vals"
      "[length \<zeta>_vals, length w_vals, length k_tilde_vals]" ?B ?B', OF _ _ n _ B]
  obtain C where C: "iadd_at0 ?uc ?B = Inr C" "shape C = ?s" "well_formed C"
    and ent: "\<And>i rest. valid ?s (i # rest) \<Longrightarrow>
          entry C (i # rest) =
            (if i = 0 then entry ?uc (i # rest) + entry ?B' rest else entry ?uc (i # rest))"
    by auto
  have run: "create_uc_grid u (w_vals, \<zeta>_vals, \<iota>_vals, k_tilde_vals) wage min_c
      = Inr (u (amap (\<lambda>c. max c min_c) C))"
    using C(1)
    by (simp add: create_uc_grid_def and_then_def view_array4 view_array3 np_empty_def
        broadcast2_same_ndim assign_all_def broadcast_to_same_ndim)
  have "entry C [i, z, x, k] =
          w_vals ! x - k_tilde_vals ! k + (if i = 0 then \<zeta>_vals ! z * wage else 0)"
    if "i < length \<iota>_vals" "z < length \<zeta>_vals" "x < length w_vals" "k < length k_tilde_vals"
    for i z x k
    using that n ent [of i "[z, x, k]"]
    by (simp add: entry_tabulate entry_amap)
  with run C(2,3) show ?thesis by blast
qed

lemma create_uc_grid_no_iota:
  "create_uc_grid u (w_vals, \<zeta>_vals, [], k_tilde_vals) wage min_c = Inl IndexError"
  by (simp add: create_uc_grid_def and_then_def view_array4 view_array3 np_empty_def
      broadcast2_same_ndim assign_all_def broadcast_to_same_ndim iadd_at0_def)

section \<open>The joint distribution\<close>

lemma create_P_tabulate:
  assumes sh: "shape P_\<zeta> = [n, m]"
  shows "\<exists>G. create_P P_\<delta> P_\<zeta> P_\<iota> = Inr (tabulate [length P_\<delta>, n, m, length P_\<iota>] G) \<and>
     (\<forall>d < length P_\<delta>. \<forall>f < n. \<forall>t < m. \<forall>i < length P_\<iota>.
        G [d, f, t, i] = P_\<delta> ! d * entry P_\<zeta> [f, t] * P_\<iota> ! i)"
proof -
  define \<delta>\<zeta> where "\<delta>\<zeta> = tabulate [length P_\<delta>, n, m, 1]
     (\<lambda>idx. entry \<lparr>shape = [length P_\<delta>, 1, 1, 1], data = P_\<delta>\<rparr>
               (bc_index [length P_\<delta>, 1, 1, 1] idx) *
             entry \<lparr>shape = [1, n, m, 1], data = data P_\<zeta>\<rparr> (bc_index [1, n, m, 1] idx))"
  define G where "G = (\<lambda>idx. entry \<delta>\<zeta> (bc_index [length P_\<delta>, n, m, 1] idx) *
     entry \<lparr>shape = [1, 1, 1, length P_\<iota>], data = P_\<iota>\<rparr> (bc_index [1, 1, 1, length P_\<iota>] idx))"
  have run: "create_P P_\<delta> P_\<zeta> P_\<iota> = Inr (tabulate [length P_\<delta>, n, m, length P_\<iota>] G)"
    using sh
    by (simp add: create_P_def and_then_def view_array4 view_matrix4 broadcast2_same_ndim
        G_def \<delta>\<zeta>_def)
  have "G [d, f, t, i] = P_\<delta> ! d * entry P_\<zeta> [f, t] * P_\<iota> ! i"
    if "d < length P_\<delta>" "f < n" "t < m" "i < length P_\<iota>" for d f t i
    using that sh by (simp add: G_def \<delta>\<zeta>_def entry_tabulate)
  with run show ?thesis by blast
qed

lemma valid4D:
  "valid [a, b, c, d] idx \<Longrightarrow> \<exists>i j k l. idx = [i, j, k, l] \<and> i < a \<and> j < b \<and> k < c \<and> l < d"
proof -
  assume v: "valid [a, b, c, d] idx"
  then obtain i r1 where 1: "idx = i # r1" by (cases idx) simp_all
  with v obtain j r2 where 2: "r1 = j # r2" by (cases r1) simp_all
  with v 1 obtain k r3 where 3: "r2 = k # r3" by (cases r2) simp_all
  with v 1 2 obtain l r4 where 4: "r3 = l # r4" by (cases r3) simp_all
  with v 1 2 3 have "r4 = []" by (cases r4) simp_all
  with v 1 2 3 4 show ?thesis by simp
qed

lemma sum_list_concat_map:
  "sum_list (concat xss) = (\<Sum>xs\<leftarrow>xss. sum_list xs)" for xss :: "real list list"
  by (induction xss) simp_all

lemma sum_list_indices_Nil: "(\<Sum>idx\<leftarrow>indices []. g idx) = g []" for g :: "nat list \<Rightarrow> real"
  by (simp add: indices.simps)

lemma sum_list_indices_Cons:
  "(\<Sum>idx\<leftarrow>indices (n # ns). g idx) = (\<Sum>i\<leftarrow>[0..<n]. \<Sum>idx\<leftarrow>indices ns. g (i # idx))"
  for g :: "nat list \<Rightarrow> real"
  by (simp add: indices.simps map_concat sum_list_concat_map comp_def)

lemma np_sum_tabulate4:
  "np_sum (tabulate [a, b, c, d] g)
     = (\<Sum>i = 0..<a. \<Sum>j = 0..<b. \<Sum>k = 0..<c. \<Sum>l = 0..<d. g [i, j, k, l])"
  by (simp add: np_sum_def tabulate_def sum_list_indices_Cons sum_list_indices_Nil
      interv_sum_list_conv_sum_set_nat del: sum_list_upt)


lemma is_distribution_sum:
  "is_distribution xs \<Longrightarrow> (\<Sum>i = 0..<length xs. xs ! i) = 1"
  by (simp add: is_distribution_def sum_list_sum_nth [symmetric])

lemma is_distribution_nth: "\<lbrakk>is_distribution xs; i < length xs\<rbrakk> \<Longrightarrow> 0 \<le> xs ! i"
  by (simp add: is_distribution_def nonneg_def list_all_length)

lemma is_transition_matrix_row:
  "\<lbrakk>is_transition_matrix A; shape A = [n, m]; f < n\<rbrakk> \<Longrightarrow> (\<Sum>t = 0..<m. entry A [f, t]) = 1"
  by (simp add: is_transition_matrix_def list_all_iff interv_sum_list_conv_sum_set_nat
      del: sum_list_upt)

lemma is_transition_matrix_entry:
  assumes "is_transition_matrix A" "shape A = [n, m]" "f < n" "t < m"
  shows "0 \<le> entry A [f, t]"
proof -
  have v: "valid (shape A) [f, t]" using assms by simp
  have "offset (shape A) [f, t] < length (data A)"
    using offset_less [OF v] assms(1,2) by (simp add: is_transition_matrix_def well_formed_def)
  then show ?thesis
    using assms(1,2) by (simp add: is_transition_matrix_def nonneg_def list_all_length entry_def)
qed

lemma joint_slice_sum:
  fixes pd pi :: "nat \<Rightarrow> real" and z :: "nat \<Rightarrow> real"
  assumes "(\<Sum>d = 0..<a. pd d) = 1" "(\<Sum>t = 0..<m. z t) = 1" "(\<Sum>i = 0..<b. pi i) = 1"
  shows "(\<Sum>d = 0..<a. \<Sum>t = 0..<m. \<Sum>i = 0..<b. pd d * z t * pi i) = 1"
proof -
  have "(\<Sum>d = 0..<a. \<Sum>t = 0..<m. \<Sum>i = 0..<b. pd d * z t * pi i)
      = (\<Sum>d = 0..<a. \<Sum>t = 0..<m. pd d * z t * (\<Sum>i = 0..<b. pi i))"
    by (simp add: sum_distrib_left)
  also have "\<dots> = (\<Sum>d = 0..<a. pd d * (\<Sum>t = 0..<m. z t))"
    using assms(3) by (simp add: sum_distrib_left)
  also have "\<dots> = 1"
    using assms(1,2) by simp
  finally show ?thesis .
qed

lemma nonneg_tabulate4:
  assumes "\<And>i j k l. \<lbrakk>i < a; j < b; k < c; l < d\<rbrakk> \<Longrightarrow> 0 \<le> g [i, j, k, l]"
  shows "nonneg (data (tabulate [a, b, c, d] g))"
proof -
  have "0 \<le> g idx" if "idx \<in> set (indices [a, b, c, d])" for idx
    using valid4D [OF valid_indices [OF that]] assms by auto
  then show ?thesis by (simp add: nonneg_def tabulate_def list_all_iff)
qed

section \<open>Facts about the construction\<close>

lemma member_le_sum_list_real:
  fixes xs :: "real list"
  shows "\<lbrakk>list_all (\<lambda>x. 0 \<le> x) xs; x \<in> set xs\<rbrakk> \<Longrightarrow> x \<le> sum_list xs"
proof (induction xs)
  case Nil
  then show ?case by simp
next
  case (Cons y ys)
  have "0 \<le> sum_list ys" using Cons.prems(1) by (auto intro: sum_list_nonneg simp: list_all_iff)
  with Cons show ?case by auto
qed

lemma is_distribution_not_bad:
  assumes "is_distribution xs"
  shows "\<not> bad_distribution xs"
proof -
  have le: "x \<le> 1" if "x \<in> set xs" for x
    using member_le_sum_list_real [of xs x] assms that
    by (simp add: is_distribution_def nonneg_def)
  have ge: "0 \<le> x" if "x \<in> set xs" for x
    using assms that by (simp add: is_distribution_def nonneg_def list_all_iff)
  have "\<not> list_ex (\<lambda>x. x < 0) xs" using ge by (fastforce simp: list_ex_iff)
  moreover have "\<not> list_ex (\<lambda>x. 1 < x) xs" using le by (fastforce simp: list_ex_iff)
  ultimately show ?thesis using assms by (simp add: bad_distribution_def is_distribution_def)
qed

lemma KIMHouseholds_accepts_example: "KIMHouseholds example_household = Inr example_household"
  by (simp add: KIMHouseholds_def example_household_def shapes_match_def parameters_valid_def
      in_unit_interval_def is_distribution_def nonneg_def is_transition_matrix_def
      well_formed_def entry_def eval_nat_numeral)

lemma is_transition_matrix_shape:
  "is_transition_matrix A \<Longrightarrow> \<exists>n m. shape A = [n, m]"
  by (auto simp: is_transition_matrix_def split: list.splits)

lemma is_transition_matrix_le_one:
  assumes tm: "is_transition_matrix A" and x: "x \<in> set (data A)"
  shows "x \<le> 1"
proof -
  from is_transition_matrix_shape [OF tm] obtain n m where sh: "shape A = [n, m]" by blast
  have len: "length (data A) = n * m"
    using tm sh by (simp add: is_transition_matrix_def well_formed_def)
  from x obtain k where k: "k < n * m" and xk: "x = data A ! k"
    using len by (auto simp: in_set_conv_nth)
  have m: "0 < m" using k by (cases m) simp_all
  let ?f = "k div m" and ?t = "k mod m"
  have f: "?f < n" using k m by (simp add: less_mult_imp_div_less)
  have t: "?t < m" using m by simp
  have ent: "entry A [?f, ?t] = x" using sh xk by (simp add: entry_def)
  let ?row = "map (\<lambda>t. entry A [?f, t]) [0..<m]"
  have pos: "list_all (\<lambda>x. 0 \<le> x) ?row"
    using is_transition_matrix_entry [OF tm sh f] by (simp add: list_all_iff)
  have one: "sum_list ?row = 1"
    using is_transition_matrix_row [OF tm sh f]
    by (simp add: interv_sum_list_conv_sum_set_nat del: sum_list_upt)
  have "x \<in> set ?row" using t ent by force
  from member_le_sum_list_real [OF pos this] one show ?thesis by simp
qed

lemma is_transition_matrix_not_bad:
  assumes tm: "is_transition_matrix A"
  shows "\<not> bad_transition_matrix A"
proof -
  from is_transition_matrix_shape [OF tm] obtain n m where sh: "shape A = [n, m]" by blast
  have "\<not> list_ex (\<lambda>x. x < 0) (data A)"
    using tm sh by (fastforce simp: is_transition_matrix_def nonneg_def list_ex_iff list_all_iff)
  moreover have "\<not> list_ex (\<lambda>x. 1 < x) (data A)"
    using is_transition_matrix_le_one [OF tm] by (fastforce simp: list_ex_iff)
  moreover have "\<not> list_ex (\<lambda>f. (\<Sum>t\<leftarrow>[0..<m]. entry A [f, t]) \<noteq> 1) [0..<n]"
    using tm sh by (simp add: is_transition_matrix_def list_ex_iff list_all_iff)
  ultimately show ?thesis using sh by (simp add: bad_transition_matrix_def)
qed

section \<open>Facts about the utility grid on doubles\<close>






lemma double_sub_finite_not_nan:
  "\<lbrakk>is_finite a; is_finite b\<rbrakk> \<Longrightarrow> double_sub a b \<noteq> NaN"
  by (cases a; cases b) (auto simp: double_sub_def double_of_exact_def)



section \<open>The claims\<close>

text \<open>
  C5. For every combination of grid sizes, sizes 0 and 1 included,
  \<open>initialize_values_and_policies\<close> returns six arrays that are all zero: \<open>V1_star\<close>
  and \<open>V1_store\<close> of shape \<open>(|\<iota>|, |\<zeta>|, |w|)\<close>, \<open>V2_star\<close> and \<open>V2_store\<close> of shape
  \<open>(|\<zeta>|, |k_tilde|, |\<iota>|)\<close>, \<open>b_av\<close> of shape \<open>(|\<zeta>|, |k_tilde|, |b|, |\<iota>|)\<close> and
  \<open>k_tilde_av\<close> of shape \<open>(|\<iota>|, |\<zeta>|, |w|, |k_tilde|)\<close>.
\<close>

theorem initialize_values_and_policies_zeros:
  "case initialize_values_and_policies (w_vals, \<zeta>_vals, \<iota>_vals, k_tilde_vals) b_vals of
     (V1_star, V1_store, V2_star, V2_store, b_av, k_tilde_av) \<Rightarrow>
       is_zeros [length \<iota>_vals, length \<zeta>_vals, length w_vals] V1_star \<and>
       is_zeros [length \<iota>_vals, length \<zeta>_vals, length w_vals] V1_store \<and>
       is_zeros [length \<zeta>_vals, length k_tilde_vals, length \<iota>_vals] V2_star \<and>
       is_zeros [length \<zeta>_vals, length k_tilde_vals, length \<iota>_vals] V2_store \<and>
       is_zeros [length \<zeta>_vals, length k_tilde_vals, length b_vals, length \<iota>_vals] b_av \<and>
       is_zeros [length \<iota>_vals, length \<zeta>_vals, length w_vals, length k_tilde_vals] k_tilde_av"
  by (simp add: initialize_values_and_policies_def Let_def is_zeros_def zeros_def
      zeros_like_def well_formed_def list_all_length)

text \<open>
  C2. For every \<open>r\<close>, \<open>R\<close>, \<open>\<Gamma>_star\<close> and grids \<open>\<delta>_vals\<close>, \<open>k_tilde_vals\<close>, \<open>b_vals\<close>,
  \<open>create_next_w\<close> returns two arrays of shape \<open>(|\<delta>|, |k_tilde|, |b|)\<close>; the entry of
  \<open>next_w\<close> at \<open>(d, j, l)\<close> is
  \<open>(1 + r) * \<delta>_vals[d] * k_tilde_vals[j] + (R - (1 + r) * \<delta>_vals[d]) * b_vals[l]\<close>, and the
  entry of \<open>next_w_star\<close> is that of \<open>next_w\<close> plus \<open>\<Gamma>_star\<close>.
\<close>

theorem create_next_w_correct:
  "\<exists>next_w next_w_star.
     create_next_w r \<delta>_vals k_tilde_vals b_vals R \<Gamma>_star = Inr (next_w, next_w_star) \<and>
     shape next_w = [length \<delta>_vals, length k_tilde_vals, length b_vals] \<and>
     shape next_w_star = [length \<delta>_vals, length k_tilde_vals, length b_vals] \<and>
     well_formed next_w \<and> well_formed next_w_star \<and>
     (\<forall>d < length \<delta>_vals. \<forall>j < length k_tilde_vals. \<forall>l < length b_vals.
        item next_w [d, j, l] =
          Inr ((1 + r) * \<delta>_vals ! d * k_tilde_vals ! j
               + (R - (1 + r) * \<delta>_vals ! d) * b_vals ! l) \<and>
        item next_w_star [d, j, l] =
          Inr ((1 + r) * \<delta>_vals ! d * k_tilde_vals ! j
               + (R - (1 + r) * \<delta>_vals ! d) * b_vals ! l + \<Gamma>_star))"
  by (simp add: create_next_w_def and_then_def view_array3 broadcast2_same_ndim item_amap
      item_tabulate entry_tabulate entry_amap)

theorem create_next_w_correct_witness:
  "\<exists>next_w next_w_star.
     create_next_w 1 [1, 2] [3, 4, 5] [6, 7] 10 100 = Inr (next_w, next_w_star) \<and>
     shape next_w = [2, 3, 2] \<and> shape next_w_star = [2, 3, 2] \<and>
     item next_w [0, 0, 0] = Inr 54 \<and> item next_w [1, 2, 1] = Inr 62 \<and>
     item next_w_star [1, 2, 1] = Inr 162"
proof -
  from create_next_w_correct [of 1 "[1, 2]" "[3, 4, 5]" "[6, 7]" 10 100]
  obtain next_w next_w_star where
    run: "create_next_w 1 [1, 2] [3, 4, 5] [6, 7] 10 100 = Inr (next_w, next_w_star)"
    and sh: "shape next_w = [2, 3, 2]" "shape next_w_star = [2, 3, 2]"
    and ent: "\<And>d j l. \<lbrakk>d < 2; j < 3; l < 2\<rbrakk> \<Longrightarrow>
        item next_w [d, j, l] =
          Inr ((1 + 1) * [1, 2] ! d * [3, 4, 5] ! j + (10 - (1 + 1) * [1, 2] ! d) * [6, 7] ! l) \<and>
        item next_w_star [d, j, l] =
          Inr ((1 + 1) * [1, 2] ! d * [3, 4, 5] ! j + (10 - (1 + 1) * [1, 2] ! d) * [6, 7] ! l
               + 100)"
    by auto
  have "item next_w [0, 0, 0] = Inr 54" using ent [of 0 0 0] by simp
  moreover have "item next_w [1, 2, 1] = Inr 62" using ent [of 1 2 1] by simp
  moreover have "item next_w_star [1, 2, 1] = Inr 162" using ent [of 1 2 1] by simp
  ultimately show ?thesis using run sh by simp
qed

text \<open>
  C1, as amended. For every utility function applied entry by entry, every wage, floor
  \<open>min_c\<close> and grids with \<open>\<iota>_vals\<close> not empty, \<open>create_uc_grid\<close> returns an array of
  shape \<open>(|\<iota>|, |\<zeta>|, |w|, |k_tilde|)\<close> whose entry at \<open>(i, z, x, k)\<close> is the utility of the
  maximum of \<open>min_c\<close> and raw consumption, raw consumption being
  \<open>w_vals[x] - k_tilde_vals[k]\<close>, plus \<open>\<zeta>_vals[z] * wage\<close> exactly when \<open>i = 0\<close>.
\<close>

theorem create_uc_grid_entries:
  assumes "\<iota>_vals \<noteq> []"
  shows "\<exists>uc. create_uc_grid (amap f) (w_vals, \<zeta>_vals, \<iota>_vals, k_tilde_vals) wage min_c = Inr uc \<and>
     shape uc = [length \<iota>_vals, length \<zeta>_vals, length w_vals, length k_tilde_vals] \<and>
     well_formed uc \<and>
     (\<forall>i < length \<iota>_vals. \<forall>z < length \<zeta>_vals. \<forall>x < length w_vals. \<forall>k < length k_tilde_vals.
        item uc [i, z, x, k] =
          Inr (f (max min_c
                   (w_vals ! x - k_tilde_vals ! k + (if i = 0 then \<zeta>_vals ! z * wage else 0)))))"
proof -
  from create_uc_grid_raw [OF assms, of "amap f" w_vals \<zeta>_vals k_tilde_vals wage min_c]
  obtain C where run: "create_uc_grid (amap f) (w_vals, \<zeta>_vals, \<iota>_vals, k_tilde_vals) wage min_c
        = Inr (amap f (amap (\<lambda>c. max c min_c) C))"
    and sh: "shape C = [length \<iota>_vals, length \<zeta>_vals, length w_vals, length k_tilde_vals]"
    and wf: "well_formed C"
    and ent: "\<And>i z x k. \<lbrakk>i < length \<iota>_vals; z < length \<zeta>_vals; x < length w_vals;
         k < length k_tilde_vals\<rbrakk> \<Longrightarrow> entry C [i, z, x, k] =
          w_vals ! x - k_tilde_vals ! k + (if i = 0 then \<zeta>_vals ! z * wage else 0)"
    by blast
  have "item (amap f (amap (\<lambda>c. max c min_c) C)) [i, z, x, k] =
      Inr (f (max min_c
               (w_vals ! x - k_tilde_vals ! k + (if i = 0 then \<zeta>_vals ! z * wage else 0))))"
    if "i < length \<iota>_vals" "z < length \<zeta>_vals" "x < length w_vals" "k < length k_tilde_vals"
    for i z x k
    using that sh wf ent [of i z x k] by (simp add: item_entry entry_amap max.commute)
  with run sh wf show ?thesis by simp
qed

theorem create_uc_grid_entries_witness:
  "\<exists>uc. create_uc_grid (amap (\<lambda>c. 2 * c)) ([10, 20], [1, 2, 3], [0, 1], [4, 5]) 100 15 = Inr uc \<and>
     shape uc = [2, 3, 2, 2] \<and>
     item uc [0, 2, 1, 0] = Inr 632 \<and> item uc [1, 2, 1, 0] = Inr 32 \<and>
     item uc [1, 0, 0, 1] = Inr 30"
proof -
  have ne: "[0, 1 :: real] \<noteq> []" by simp
  from create_uc_grid_entries [OF ne, of "\<lambda>c. 2 * c" "[10, 20]" "[1, 2, 3]" "[4, 5]" 100 15]
  obtain uc where run:
      "create_uc_grid (amap (\<lambda>c. 2 * c)) ([10, 20], [1, 2, 3], [0, 1], [4, 5]) 100 15 = Inr uc"
    and sh: "shape uc = [2, 3, 2, 2]"
    and ent: "\<And>i z x k. \<lbrakk>i < 2; z < 3; x < 2; k < 2\<rbrakk> \<Longrightarrow> item uc [i, z, x, k] =
        Inr (2 * max 15 ([10, 20] ! x - [4, 5] ! k + (if i = 0 then [1, 2, 3] ! z * 100 else 0)))"
    by auto
  have "item uc [0, 2, 1, 0] = Inr 632" using ent [of 0 2 1 0] by simp
  moreover have "item uc [1, 2, 1, 0] = Inr 32" using ent [of 1 2 1 0] by simp
  moreover have "item uc [1, 0, 0, 1] = Inr 30" using ent [of 1 0 0 1] by simp
  ultimately show ?thesis using run sh by simp
qed

text \<open>
  The claim as first stated covers every grid. With an empty \<open>\<iota>_vals\<close> the update of
  the block at index 0 has no block to update, and the routine raises IndexError.
\<close>

theorem create_uc_grid_empty_iota_raises:
  "create_uc_grid (amap id) ([1], [1], [], [1]) 1 1 = Inl IndexError"
  by (simp add: create_uc_grid_def and_then_def view_def array_def np_empty_def
      broadcast2_def assign_all_def broadcast_to_def iadd_at0_def pad_def tabulate_def Let_def)

text \<open>
  C3. For every one-dimensional \<open>P_\<delta>\<close> and \<open>P_\<iota>\<close> and every two-dimensional \<open>P_\<zeta>\<close>,
  \<open>create_P\<close> returns the four-dimensional array whose entry at \<open>(d, f, t, i)\<close> is
  \<open>P_\<delta>[d] * P_\<zeta>[f, t] * P_\<iota>[i]\<close>.
\<close>

theorem create_P_entries:
  assumes "shape P_\<zeta> = [n, m]"
  shows "\<exists>P. create_P P_\<delta> P_\<zeta> P_\<iota> = Inr P \<and>
     shape P = [length P_\<delta>, n, m, length P_\<iota>] \<and> well_formed P \<and>
     (\<forall>d < length P_\<delta>. \<forall>f < n. \<forall>t < m. \<forall>i < length P_\<iota>.
        item P [d, f, t, i] = Inr (P_\<delta> ! d * entry P_\<zeta> [f, t] * P_\<iota> ! i))"
proof -
  from create_P_tabulate [OF assms, of P_\<delta> P_\<iota>]
  obtain G where run: "create_P P_\<delta> P_\<zeta> P_\<iota> = Inr (tabulate [length P_\<delta>, n, m, length P_\<iota>] G)"
    and G: "\<And>d f t i. \<lbrakk>d < length P_\<delta>; f < n; t < m; i < length P_\<iota>\<rbrakk> \<Longrightarrow>
        G [d, f, t, i] = P_\<delta> ! d * entry P_\<zeta> [f, t] * P_\<iota> ! i"
    by blast
  show ?thesis using run G by (simp add: item_tabulate)
qed

theorem create_P_entries_witness:
  "\<exists>P. create_P [1/4, 3/4] \<lparr>shape = [2, 2], data = [1, 0, 1/4, 3/4]\<rparr> [1/3, 2/3] = Inr P \<and>
     shape P = [2, 2, 2, 2] \<and> item P [1, 1, 0, 1] = Inr (1/8) \<and> item P [0, 0, 1, 0] = Inr 0"
proof -
  let ?Z = "\<lparr>shape = [2, 2], data = [1, 0, 1/4, 3/4 :: real]\<rparr>"
  have sh: "shape ?Z = [2, 2]" by simp
  from create_P_entries [OF sh, of "[1/4, 3/4]" "[1/3, 2/3]"]
  obtain P where run: "create_P [1/4, 3/4] ?Z [1/3, 2/3] = Inr P"
    and shP: "shape P = [2, 2, 2, 2]"
    and ent: "\<And>d f t i. \<lbrakk>d < 2; f < 2; t < 2; i < 2\<rbrakk> \<Longrightarrow>
        item P [d, f, t, i] = Inr ([1/4, 3/4] ! d * entry ?Z [f, t] * [1/3, 2/3] ! i)"
    by auto
  have "item P [1, 1, 0, 1] = Inr (1/8)" using ent [of 1 1 0 1] by (simp add: entry_def)
  moreover have "item P [0, 0, 1, 0] = Inr 0" using ent [of 0 0 1 0] by (simp add: entry_def)
  ultimately show ?thesis using run shP by simp
qed

text \<open>
  C4, as amended. For \<open>P_\<delta>\<close> and \<open>P_\<iota>\<close> without negative entry and summing to 1, and
  \<open>P_\<zeta>\<close> without negative entry and with every row summing to 1, the array that
  \<open>create_P\<close> returns has no negative entry, and the sum of all its entries is the
  number of rows of \<open>P_\<zeta>\<close>.
\<close>

theorem create_P_total:
  assumes d: "is_distribution P_\<delta>" and i: "is_distribution P_\<iota>"
    and z: "is_transition_matrix P_\<zeta>" and sh: "shape P_\<zeta> = [n, m]"
  shows "\<exists>P. create_P P_\<delta> P_\<zeta> P_\<iota> = Inr P \<and> nonneg (data P) \<and> np_sum P = real n"
proof -
  from create_P_tabulate [OF sh, of P_\<delta> P_\<iota>]
  obtain G where run: "create_P P_\<delta> P_\<zeta> P_\<iota> = Inr (tabulate [length P_\<delta>, n, m, length P_\<iota>] G)"
    and G: "\<And>d f t i. \<lbrakk>d < length P_\<delta>; f < n; t < m; i < length P_\<iota>\<rbrakk> \<Longrightarrow>
        G [d, f, t, i] = P_\<delta> ! d * entry P_\<zeta> [f, t] * P_\<iota> ! i"
    by blast
  let ?P = "tabulate [length P_\<delta>, n, m, length P_\<iota>] G"
  have pos: "nonneg (data ?P)"
  proof (rule nonneg_tabulate4)
    fix d' f t i' assume b: "d' < length P_\<delta>" "f < n" "t < m" "i' < length P_\<iota>"
    have "0 \<le> P_\<delta> ! d' * entry P_\<zeta> [f, t] * P_\<iota> ! i'"
      using is_distribution_nth [OF d b(1)] is_distribution_nth [OF i b(4)]
        is_transition_matrix_entry [OF z sh b(2,3)]
      by simp
    then show "0 \<le> G [d', f, t, i']" using G [OF b] by simp
  qed
  have "np_sum ?P = (\<Sum>d = 0..<length P_\<delta>. \<Sum>f = 0..<n. \<Sum>t = 0..<m. \<Sum>i = 0..<length P_\<iota>.
       P_\<delta> ! d * entry P_\<zeta> [f, t] * P_\<iota> ! i)"
    using G by (simp add: np_sum_tabulate4)
  also have "\<dots> = (\<Sum>f = 0..<n. \<Sum>d = 0..<length P_\<delta>. \<Sum>t = 0..<m. \<Sum>i = 0..<length P_\<iota>.
       P_\<delta> ! d * entry P_\<zeta> [f, t] * P_\<iota> ! i)"
    by (rule sum.swap)
  also have "\<dots> = (\<Sum>f = 0..<n. 1)"
  proof (rule sum.cong [OF refl])
    fix f assume "f \<in> {0..<n}"
    then have f: "f < n" by simp
    show "(\<Sum>d = 0..<length P_\<delta>. \<Sum>t = 0..<m. \<Sum>i = 0..<length P_\<iota>.
       P_\<delta> ! d * entry P_\<zeta> [f, t] * P_\<iota> ! i) = 1"
      by (rule joint_slice_sum [OF is_distribution_sum [OF d]
            is_transition_matrix_row [OF z sh f] is_distribution_sum [OF i]])
  qed
  also have "\<dots> = real n" by simp
  finally have "np_sum ?P = real n" .
  with run pos show ?thesis by simp
qed

theorem create_P_total_witness:
  "\<exists>P. create_P [1/4, 3/4] \<lparr>shape = [2, 2], data = [1, 0, 1/4, 3/4]\<rparr> [1/3, 2/3] = Inr P \<and>
     nonneg (data P) \<and> np_sum P = 2"
proof -
  have d: "is_distribution [1/4, 3/4]" and i: "is_distribution [1/3, 2/3]"
    by (simp_all add: is_distribution_def nonneg_def)
  have z: "is_transition_matrix \<lparr>shape = [2, 2], data = [1, 0, 1/4, 3/4]\<rparr>"
    by (simp add: is_transition_matrix_def well_formed_def nonneg_def entry_def
        eval_nat_numeral)
  have sh: "shape \<lparr>shape = [2, 2], data = [1, 0, 1/4, 3/4 :: real]\<rparr> = [2, 2]" by simp
  from create_P_total [OF d i z sh] show ?thesis by simp
qed

text \<open>
  The claim as first stated has the entries sum to 1. With two rows in \<open>P_\<zeta>\<close>, each
  summing to 1, they sum to 2.
\<close>

theorem create_P_total_not_one:
  "is_distribution [1/4, 3/4] \<and> is_distribution [1/3, 2/3] \<and>
   is_transition_matrix \<lparr>shape = [2, 2], data = [1, 0, 1/4, 3/4]\<rparr> \<and>
   map_sum id np_sum (create_P [1/4, 3/4] \<lparr>shape = [2, 2], data = [1, 0, 1/4, 3/4]\<rparr> [1/3, 2/3])
     = Inr 2"
  by code_simp







text \<open>
  C7. Constructing the households returns the error, and no object, whenever
  \<open>P_\<delta>\<close>, \<open>P_\<zeta>\<close> or \<open>P_\<iota>\<close> has a negative entry, an entry above 1 or does not sum to 1
  (along each row, for \<open>P_\<zeta>\<close>), and whenever \<open>\<alpha>\<close>, \<open>\<beta>\<close> or \<open>\<pi>\<close> is outside \<open>[0, 1]\<close>.
\<close>

theorem KIMHouseholds_rejects_invalid_parameter:
  assumes "bad_distribution (hh_P_\<delta> h) \<or> bad_transition_matrix (hh_P_\<zeta> h) \<or>
           bad_distribution (hh_P_\<iota> h) \<or>
           \<not> in_unit_interval (hh_\<alpha> h) \<or> \<not> in_unit_interval (hh_\<beta> h) \<or>
           \<not> in_unit_interval (hh_\<pi> h)"
  shows "KIMHouseholds h = Inl ValueError"
  using assms is_distribution_not_bad [of "hh_P_\<delta> h"] is_distribution_not_bad [of "hh_P_\<iota> h"]
    is_transition_matrix_not_bad [of "hh_P_\<zeta> h"]
  by (auto simp: KIMHouseholds_def parameters_valid_def)

theorem KIMHouseholds_rejects_invalid_parameter_witness:
  "KIMHouseholds (example_household\<lparr>hh_P_\<delta> := [-1/2, 1/2]\<rparr>) = Inl ValueError \<and>
   KIMHouseholds (example_household\<lparr>hh_P_\<delta> := [3/2, 1/2]\<rparr>) = Inl ValueError \<and>
   KIMHouseholds (example_household\<lparr>hh_P_\<delta> := [1/4, 1/4, 1/4, 1/4, 1/4]\<rparr>) = Inl ValueError \<and>
   KIMHouseholds (example_household\<lparr>hh_\<alpha> := 11/10\<rparr>) = Inl ValueError \<and>
   KIMHouseholds (example_household\<lparr>hh_\<beta> := 11/10\<rparr>) = Inl ValueError \<and>
   KIMHouseholds (example_household\<lparr>hh_\<pi> := 11/10\<rparr>) = Inl ValueError"
proof -
  have "KIMHouseholds (example_household\<lparr>hh_P_\<delta> := [-1/2, 1/2]\<rparr>) = Inl ValueError"
    by (rule KIMHouseholds_rejects_invalid_parameter) (simp add: bad_distribution_def)
  moreover have "KIMHouseholds (example_household\<lparr>hh_P_\<delta> := [3/2, 1/2]\<rparr>) = Inl ValueError"
    by (rule KIMHouseholds_rejects_invalid_parameter) (simp add: bad_distribution_def)
  moreover have
    "KIMHouseholds (example_household\<lparr>hh_P_\<delta> := [1/4, 1/4, 1/4, 1/4, 1/4]\<rparr>) = Inl ValueError"
    by (rule KIMHouseholds_rejects_invalid_parameter) (simp add: bad_distribution_def)
  moreover have "KIMHouseholds (example_household\<lparr>hh_\<alpha> := 11/10\<rparr>) = Inl ValueError"
    by (rule KIMHouseholds_rejects_invalid_parameter) (simp add: in_unit_interval_def)
  moreover have "KIMHouseholds (example_household\<lparr>hh_\<beta> := 11/10\<rparr>) = Inl ValueError"
    by (rule KIMHouseholds_rejects_invalid_parameter) (simp add: in_unit_interval_def)
  moreover have "KIMHouseholds (example_household\<lparr>hh_\<pi> := 11/10\<rparr>) = Inl ValueError"
    by (rule KIMHouseholds_rejects_invalid_parameter) (simp add: in_unit_interval_def)
  ultimately show ?thesis by simp
qed

text \<open>
  C8. Constructing the households returns the error whenever the size of \<open>P_\<delta>\<close> is not
  the size of \<open>\<delta>_vals\<close>, or the shape of \<open>P_\<zeta>\<close> is not \<open>|\<zeta>_vals| \<times> |\<zeta>_vals|\<close>, also
  for a \<open>P_\<zeta>\<close> whose rows sum to 1.
\<close>

theorem KIMHouseholds_rejects_shape_mismatch:
  assumes "length (hh_P_\<delta> h) \<noteq> length (hh_\<delta>_vals h) \<or>
           shape (hh_P_\<zeta> h) \<noteq> [length (hh_\<zeta>_vals h), length (hh_\<zeta>_vals h)]"
  shows "KIMHouseholds h = Inl ValueError"
  using assms by (auto simp: KIMHouseholds_def shapes_match_def)

theorem KIMHouseholds_rejects_shape_mismatch_witness:
  "KIMHouseholds (example_household\<lparr>hh_\<delta>_vals := [1, 11/10, 6/5], hh_P_\<delta> := [1/2, 1/2]\<rparr>)
     = Inl ValueError \<and>
   KIMHouseholds (example_household\<lparr>hh_\<zeta>_vals := [1/2, 3/2, 5/2], hh_P_\<zeta> := array [1/2, 1/2]\<rparr>)
     = Inl ValueError \<and>
   KIMHouseholds (example_household\<lparr>hh_\<zeta>_vals := [1/2, 3/2, 5/2],
       hh_P_\<zeta> := \<lparr>shape = [2, 3], data = [1/3, 1/3, 1/3, 1/3, 1/3, 1/3]\<rparr>\<rparr>)
     = Inl ValueError"
proof -
  have "KIMHouseholds (example_household\<lparr>hh_\<delta>_vals := [1, 11/10, 6/5], hh_P_\<delta> := [1/2, 1/2]\<rparr>)
     = Inl ValueError"
    by (rule KIMHouseholds_rejects_shape_mismatch) simp
  moreover have
    "KIMHouseholds (example_household\<lparr>hh_\<zeta>_vals := [1/2, 3/2, 5/2], hh_P_\<zeta> := array [1/2, 1/2]\<rparr>)
     = Inl ValueError"
    by (rule KIMHouseholds_rejects_shape_mismatch) (simp add: array_def)
  moreover have "KIMHouseholds (example_household\<lparr>hh_\<zeta>_vals := [1/2, 3/2, 5/2],
       hh_P_\<zeta> := \<lparr>shape = [2, 3], data = [1/3, 1/3, 1/3, 1/3, 1/3, 1/3]\<rparr>\<rparr>)
     = Inl ValueError"
    by (rule KIMHouseholds_rejects_shape_mismatch) simp
  ultimately show ?thesis by simp
qed



end
